theory Spec2Isabelle
  imports Complex_Main "HOL-Library.Sublist"
begin

section \<open>Frames and modes (src/types.ts)\<close>

text \<open>
  \<^verbatim>\<open>interface CapturedFrame { id; dataUrl; width; height; timestamp }\<close>.
  The field \<^verbatim>\<open>id\<close> is written \<open>frame_id\<close>, since \<open>id\<close> is the identity function of HOL.
  Every frame is built by \<^verbatim>\<open>captureFrame\<close> from \<^verbatim>\<open>canvas.width\<close>, \<^verbatim>\<open>canvas.height\<close> (unsigned
  integers of the DOM) and \<^verbatim>\<open>Date.now()\<close>, so the three numbers are natural numbers.
  Sums and halves of such numbers are exact in double precision below \<open>2^53\<close>; the model
  computes with exact numbers.
\<close>

record CapturedFrame =
  frame_id :: string
  dataUrl :: string
  width :: nat
  height :: nat
  timestamp :: nat

datatype CaptureMode = SINGLE | LONG_MANUAL | LONG_TIMER

datatype AppState = IDLE | CAPTURING | STITCHING | ANALYZING


section \<open>The frame collection (src/App.tsx)\<close>

text \<open>\<^verbatim>\<open>setFrames(prev => prev.filter(f => f.id !== id))\<close>\<close>

definition handleDeleteFrame :: "string \<Rightarrow> CapturedFrame list \<Rightarrow> CapturedFrame list" where
  "handleDeleteFrame i prev = filter (\<lambda>f. frame_id f \<noteq> i) prev"

text \<open>
  \<^verbatim>\<open>Array.prototype.findIndex\<close>: the index of the first element that satisfies the
  predicate, \<open>-1\<close> when there is none.
\<close>

definition findIndex :: "('a \<Rightarrow> bool) \<Rightarrow> 'a list \<Rightarrow> int" where
  "findIndex p xs =
     (let n = length (takeWhile (\<lambda>x. \<not> p x) xs)
      in if n = length xs then - 1 else int n)"

datatype direction = Up | Down

text \<open>
  \<^verbatim>\<open>
  setFrames(prev => {
      const idx = prev.findIndex(f => f.id === id);
      if (idx === -1) return prev;
      const newFrames = [...prev];
      const swapIdx = direction === 'up' ? idx - 1 : idx + 1;
      if (swapIdx >= 0 && swapIdx < newFrames.length) {
          [newFrames[idx], newFrames[swapIdx]] = [newFrames[swapIdx], newFrames[idx]];
      }
      return newFrames;
  });
  \<close>
  The destructuring assignment reads both elements before it writes either.
\<close>

definition handleReorderFrame ::
  "string \<Rightarrow> direction \<Rightarrow> CapturedFrame list \<Rightarrow> CapturedFrame list" where
  "handleReorderFrame i dir prev =
     (let idx = findIndex (\<lambda>f. frame_id f = i) prev in
      if idx = - 1 then prev
      else
        let newFrames = prev;
            swapIdx = (if dir = Up then idx - 1 else idx + 1)
        in if swapIdx \<ge> 0 \<and> swapIdx < int (length newFrames)
           then newFrames[nat idx := prev ! nat swapIdx, nat swapIdx := prev ! nat idx]
           else newFrames)"


section \<open>The stitch effect (src/components/StitchEditor.tsx)\<close>

text \<open>
  \<^verbatim>\<open>Math.max(...xs)\<close> is \<open>-Infinity\<close> for no arguments (\<open>None\<close> here) and the greatest
  argument otherwise.
\<close>

fun Math_max :: "nat list \<Rightarrow> nat option" where
  "Math_max [] = None"
| "Math_max (x # xs) = Some (fold max xs x)"

text \<open>\<^verbatim>\<open>frames.reduce((acc, f) => acc + f.height, 0)\<close>\<close>

definition totalHeight :: "CapturedFrame list \<Rightarrow> nat" where
  "totalHeight fs = foldl (\<lambda>acc f. acc + height f) 0 fs"

text \<open>
  What has been painted on the canvas, oldest call first.
  \<open>FillRect style x y w h\<close> is \<^verbatim>\<open>ctx.fillRect(x, y, w, h)\<close> under \<^verbatim>\<open>ctx.fillStyle = style\<close>;
  \<open>DrawImage frame x y\<close> is \<^verbatim>\<open>ctx.drawImage(img, x, y)\<close> for the image decoded from
  \<^verbatim>\<open>frame.dataUrl\<close>. The horizontal offset is a half of an integer, hence rational.
\<close>

datatype paint =
    FillRect string nat nat nat nat
  | DrawImage CapturedFrame rat nat

record canvas =
  canvas_width :: nat
  canvas_height :: nat
  painted :: "paint list"

text \<open>
  The load events that follow the synchronous part of the effect. The effect creates
  one image per frame in \<^verbatim>\<open>frames.forEach\<close> without waiting for any of them
  (\<open>Unawaited i\<close> is the \<^verbatim>\<open>onload\<close> of the image made for \<^verbatim>\<open>frames[i]\<close>), and
  \<^verbatim>\<open>drawImages\<close> creates one image at a time and awaits its \<^verbatim>\<open>onload\<close> (\<open>Chained\<close>).
  The browser decides the order in which load events arrive; that order is the
  schedule, an input of the model.
\<close>

datatype event = Unawaited nat | Chained

text \<open>
  What outlives a run of the effect: the canvas element and the component state
  \<^verbatim>\<open>stitchedImage\<close>. The PNG of \<^verbatim>\<open>canvas.toDataURL('image/png')\<close> is represented by the canvas
  content it encodes; \<open>None\<close> is \<^verbatim>\<open>null\<close>.
\<close>

record view =
  canvas :: canvas
  stitchedImage :: "canvas option"

text \<open>
  The variables that the closures of one run share: \<^verbatim>\<open>maxWidth\<close>, \<^verbatim>\<open>currentY\<close> with the
  images of the \<^verbatim>\<open>forEach\<close> that have not fired yet (each with the index of its frame),
  and \<^verbatim>\<open>yOffset\<close> with the frames that the \<^verbatim>\<open>for\<close> loop of \<^verbatim>\<open>drawImages\<close> has not drawn
  yet (it awaits the image of the first of them).
\<close>

record run =
  maxWidth :: nat
  currentY :: nat
  unawaited :: "(nat \<times> CapturedFrame) list"
  yOffset :: nat
  awaiting :: "CapturedFrame list"

definition drawImage :: "CapturedFrame \<Rightarrow> rat \<Rightarrow> nat \<Rightarrow> canvas \<Rightarrow> canvas" where
  "drawImage frame x y cv = cv\<lparr>painted := painted cv @ [DrawImage frame x y]\<rparr>"

text \<open>\<^verbatim>\<open>const x = (maxWidth - frame.width) / 2;\<close> (division of JavaScript numbers)\<close>

definition centre :: "nat \<Rightarrow> CapturedFrame \<Rightarrow> rat" where
  "centre mw frame = (of_nat mw - of_nat (width frame)) / 2"

text \<open>
  The synchronous part of the effect (lines 26 to 70 and the start of \<^verbatim>\<open>drawImages\<close>).
  \<open>hasCanvas\<close> is \<^verbatim>\<open>canvasRef.current\<close> being set, \<open>hasCtx\<close> is \<^verbatim>\<open>getContext('2d')\<close> not
  returning \<^verbatim>\<open>null\<close>. Assigning \<^verbatim>\<open>canvas.width\<close> and \<^verbatim>\<open>canvas.height\<close> clears the canvas.
  The second component is \<open>None\<close> when the effect returns before it creates any image:
  then no handler is left behind. (\<^verbatim>\<open>Math.max\<close> has an argument once the collection is
  not empty, so its branch \<open>None\<close> is never taken.)
\<close>

definition stitchEffect ::
  "bool \<Rightarrow> bool \<Rightarrow> CapturedFrame list \<Rightarrow> view \<Rightarrow> view \<times> run option" where
  "stitchEffect hasCanvas hasCtx fs v =
     (if length fs = 0 then (v\<lparr>stitchedImage := None\<rparr>, None)
      else if \<not> hasCanvas then (v, None)
      else
        (case Math_max (map width fs) of
           None \<Rightarrow> (v, None)
         | Some mw \<Rightarrow>
             let cv = \<lparr>canvas_width = mw, canvas_height = totalHeight fs, painted = []\<rparr>
             in if \<not> hasCtx then (v\<lparr>canvas := cv\<rparr>, None)
                else (v\<lparr>canvas :=
                          cv\<lparr>painted := [FillRect ''#000'' 0 0 (canvas_width cv) (canvas_height cv)]\<rparr>\<rparr>,
                      Some \<lparr>maxWidth = mw,
                            currentY = 0,
                            unawaited = zip [0..<length fs] fs,
                            yOffset = 0,
                            awaiting = fs\<rparr>)))"

text \<open>
  One load event.

  \<open>Unawaited i\<close> runs the handler of lines 54 to 67, once per image:
  \<^verbatim>\<open>const x = (maxWidth - frame.width) / 2; ctx.drawImage(img, x, currentY);
  currentY += frame.height;\<close>

  \<open>Chained\<close> runs the handler of lines 78 to 83 for the frame the loop is waiting for:
  \<^verbatim>\<open>const x = (maxWidth - frame.width) / 2; ctx.drawImage(img, x, yOffset);
  yOffset += frame.height; resolve();\<close>
  and, when that was the last frame, the loop ends and line 87 runs before any other
  event: \<^verbatim>\<open>setStitchedImage(canvas.toDataURL('image/png'))\<close>.
\<close>

fun fire :: "event \<Rightarrow> view \<times> run \<Rightarrow> view \<times> run" where
  "fire (Unawaited i) (v, r) =
     (case map_of (unawaited r) i of
        None \<Rightarrow> (v, r)
      | Some frame \<Rightarrow>
          (v\<lparr>canvas := drawImage frame (centre (maxWidth r) frame) (currentY r) (canvas v)\<rparr>,
           r\<lparr>currentY := currentY r + height frame,
             unawaited := filter (\<lambda>p. fst p \<noteq> i) (unawaited r)\<rparr>))"
| "fire Chained (v, r) =
     (case awaiting r of
        [] \<Rightarrow> (v, r)
      | frame # rest \<Rightarrow>
          let v' = v\<lparr>canvas := drawImage frame (centre (maxWidth r) frame) (yOffset r) (canvas v)\<rparr>;
              r' = r\<lparr>yOffset := yOffset r + height frame, awaiting := rest\<rparr>
          in if rest = [] then (v'\<lparr>stitchedImage := Some (canvas v')\<rparr>, r') else (v', r'))"

text \<open>
  A render: one run of the effect, the synchronous part and then the load events of
  its own images in the order of the schedule. (Handlers that an earlier run left
  behind are not part of it.)
\<close>

definition render :: "event list \<Rightarrow> bool \<Rightarrow> bool \<Rightarrow> CapturedFrame list \<Rightarrow> view \<Rightarrow> view" where
  "render sched hasCanvas hasCtx fs v =
     (case stitchEffect hasCanvas hasCtx fs v of
        (v', None) \<Rightarrow> v'
      | (v', Some r) \<Rightarrow> fst (fold fire sched (v', r)))"

text \<open>
  The calls \<^verbatim>\<open>drawImage\<close> of a loop over \<open>fs\<close> that starts at the offset \<open>y\<close>, in closed
  form (used to state what the loops have painted).
\<close>

fun stacked :: "nat \<Rightarrow> CapturedFrame list \<Rightarrow> nat \<Rightarrow> paint list" where
  "stacked mw [] y = []"
| "stacked mw (frame # rest) y = DrawImage frame (centre mw frame) y # stacked mw rest (y + height frame)"

text \<open>
  The content of a canvas pixel (column \<open>c\<close>, row \<open>r\<close>): the last paint that covers it.
  Frames come from \<^verbatim>\<open>canvas.toDataURL\<close> of a drawn video frame, so the decoded image has
  the width and height of the frame, its pixels are opaque and an image drawn later
  hides what is below it. An image drawn at a whole offset copies its pixels
  (\<open>FramePixel frame column row\<close>); at a fractional offset the browser resamples it.
\<close>

datatype pixel =
    Clear
  | Fill string
  | FramePixel CapturedFrame nat nat
  | Resampled CapturedFrame

fun paint_pixel :: "paint \<Rightarrow> nat \<Rightarrow> nat \<Rightarrow> pixel option" where
  "paint_pixel (FillRect style x y w h) c r =
     (if x \<le> c \<and> c < x + w \<and> y \<le> r \<and> r < y + h then Some (Fill style) else None)"
| "paint_pixel (DrawImage frame x y) c r =
     (if of_nat c + 1 \<le> x \<or> x + of_nat (width frame) \<le> of_nat c \<or> r < y \<or> y + height frame \<le> r
      then None
      else if x = of_int \<lfloor>x\<rfloor> then Some (FramePixel frame (c - nat \<lfloor>x\<rfloor>) (r - y))
      else Some (Resampled frame))"

fun pixel_of :: "paint list \<Rightarrow> nat \<Rightarrow> nat \<Rightarrow> pixel" where
  "pixel_of [] c r = Clear"
| "pixel_of (p # ps) c r =
     (case pixel_of ps c r of
        Clear \<Rightarrow> (case paint_pixel p c r of None \<Rightarrow> Clear | Some px \<Rightarrow> px)
      | px \<Rightarrow> px)"

definition pixel_at :: "canvas \<Rightarrow> nat \<Rightarrow> nat \<Rightarrow> pixel" where
  "pixel_at cv c r = pixel_of (painted cv) c r"


section \<open>Capturing frames (src/components/CaptureStage.tsx)\<close>

text \<open>
  What the browser supplies to one call of \<^verbatim>\<open>captureFrame\<close>: whether
  \<^verbatim>\<open>videoRef.current\<close> is set, whether \<^verbatim>\<open>getContext('2d')\<close> returns a context, the text of
  \<^verbatim>\<open>Math.random().toString(36)\<close>, the size of the video, the text of
  \<^verbatim>\<open>canvas.toDataURL('image/png')\<close> and \<^verbatim>\<open>Date.now()\<close>.
\<close>

record capture_env =
  videoRef :: bool
  context2d :: bool
  random36 :: string
  videoWidth :: nat
  videoHeight :: nat
  toDataURL :: string
  now :: nat

text \<open>\<^verbatim>\<open>const generateId = () => Math.random().toString(36).substr(2, 9);\<close>\<close>

definition generateId :: "string \<Rightarrow> string" where
  "generateId r = take 9 (drop 2 r)"

text \<open>
  The state of the component (its \<^verbatim>\<open>useState\<close> cells); \<open>stream\<close> tells whether the
  media stream is set (not \<^verbatim>\<open>null\<close>).
\<close>

record CaptureStage =
  stream :: bool
  mode :: CaptureMode
  frames :: "CapturedFrame list"
  isRecording :: bool
  timerInterval :: "nat option"

text \<open>
  A function of the component body reads the state cells of the render that created
  it: that render's values are its closure, \<open>cl\<close> below. A state setter called with a
  function (\<^verbatim>\<open>setFrames(prev => ...)\<close>) applies it to the current state, \<open>cur\<close>.

  \<^verbatim>\<open>
  const captureFrame = () => {
    if (!videoRef.current || !stream) return;
    ...
    if (ctx) {
      ...
      const newFrame = { id: generateId(), dataUrl, width: canvas.width,
                         height: canvas.height, timestamp: Date.now() };
      setFrames(prev => [...prev, newFrame]);
    }
  };
  \<close>
\<close>

definition newFrame :: "capture_env \<Rightarrow> CapturedFrame" where
  "newFrame env =
     \<lparr>frame_id = generateId (random36 env), dataUrl = toDataURL env,
      width = videoWidth env, height = videoHeight env, timestamp = now env\<rparr>"

definition captureFrame :: "CaptureStage \<Rightarrow> capture_env \<Rightarrow> CaptureStage \<Rightarrow> CaptureStage" where
  "captureFrame cl env cur =
     (if \<not> videoRef env \<or> \<not> stream cl then cur
      else if context2d env then cur\<lparr>frames := frames cur @ [newFrame env]\<rparr>
      else cur)"

text \<open>
  \<^verbatim>\<open>stopStream\<close> stops the tracks and calls \<^verbatim>\<open>setStream(null)\<close> when its closure has a
  stream; clearing the interval changes no state cell.
\<close>

definition stopStream :: "CaptureStage \<Rightarrow> CaptureStage \<Rightarrow> CaptureStage" where
  "stopStream cl cur = (if stream cl then cur\<lparr>stream := False\<rparr> else cur)"

text \<open>
  \<^verbatim>\<open>const handleFinish = () => { stopStream(); onCaptureFrames(frames); };\<close>
  The second component is the argument of \<^verbatim>\<open>onCaptureFrames\<close>: the \<^verbatim>\<open>frames\<close> of the
  closure.
\<close>

definition handleFinish :: "CaptureStage \<Rightarrow> CaptureStage \<Rightarrow> CaptureStage \<times> CapturedFrame list" where
  "handleFinish cl cur = (stopStream cl cur, frames cl)"

text \<open>
  The button of the mode \<^verbatim>\<open>SINGLE\<close>, clicked on the render of state \<open>s\<close>:
  \<^verbatim>\<open>onClick={() => { captureFrame(); setTimeout(() => handleFinish(), 200); }}\<close>
  Both \<^verbatim>\<open>captureFrame\<close> and \<^verbatim>\<open>handleFinish\<close> are the ones of that render; the timer
  callback runs after the state update of \<^verbatim>\<open>captureFrame\<close> has been applied.
\<close>

definition captureAndEdit_onClick ::
  "CaptureStage \<Rightarrow> capture_env \<Rightarrow> CaptureStage \<times> CapturedFrame list" where
  "captureAndEdit_onClick s env = handleFinish s (captureFrame s env s)"

text \<open>
  The buttons of the mode \<^verbatim>\<open>LONG_MANUAL\<close>, each clicked on the render of the current
  state: \<^verbatim>\<open>onClick={captureFrame}\<close> and \<^verbatim>\<open>onClick={handleFinish}\<close>.
\<close>

definition snapFrame_onClick :: "CaptureStage \<Rightarrow> capture_env \<Rightarrow> CaptureStage" where
  "snapFrame_onClick s env = captureFrame s env s"

definition finishStitching_onClick :: "CaptureStage \<Rightarrow> CaptureStage \<times> CapturedFrame list" where
  "finishStitching_onClick s = handleFinish s s"

text \<open>The session once the stream has been granted: \<^verbatim>\<open>useState\<close> initial values.\<close>

definition session_start :: CaptureStage where
  "session_start =
     \<lparr>stream = True, mode = SINGLE, frames = [], isRecording = False, timerInterval = None\<rparr>"


section \<open>Reading the gateway's answer (src/services/geminiService.ts)\<close>

text \<open>
  A value that \<^verbatim>\<open>JSON.parse\<close> returns. An object is the list of its properties, each
  name once. \<^verbatim>\<open>undefined\<close> is \<open>None\<close> of \<open>json option\<close>.
\<close>

datatype json =
    JNull
  | JBool bool
  | JNum rat
  | JStr string
  | JArr "json list"
  | JObj "(string \<times> json) list"

text \<open>
  \<^verbatim>\<open>json.k\<close> for the names the function reads (\<^verbatim>\<open>summary\<close>, \<^verbatim>\<open>description\<close>, \<^verbatim>\<open>code\<close>,
  \<^verbatim>\<open>text\<close>): a \<^verbatim>\<open>TypeError\<close> on \<^verbatim>\<open>null\<close> (outer \<open>None\<close>), the property of an object,
  \<^verbatim>\<open>undefined\<close> on a boolean, a number, a string or an array.
\<close>

fun getProp :: "json \<Rightarrow> string \<Rightarrow> json option option" where
  "getProp JNull k = None"
| "getProp (JObj ps) k = Some (map_of ps k)"
| "getProp (JBool b) k = Some None"
| "getProp (JNum q) k = Some None"
| "getProp (JStr s) k = Some None"
| "getProp (JArr vs) k = Some None"

text \<open>Truthiness, and \<^verbatim>\<open>a || b\<close>.\<close>

fun truthy :: "json option \<Rightarrow> bool" where
  "truthy None = False"
| "truthy (Some JNull) = False"
| "truthy (Some (JBool b)) = b"
| "truthy (Some (JNum q)) = (q \<noteq> 0)"
| "truthy (Some (JStr s)) = (s \<noteq> [])"
| "truthy (Some (JArr vs)) = True"
| "truthy (Some (JObj ps)) = True"

record AnalysisResult =
  summary :: "json option"
  code_field :: "json option"
  text_field :: "json option"

datatype gateway = Rejected | Response "string option"

datatype error = GatewayError

text \<open>
  Lines 36 to 49. The request (lines 9 to 34) either throws, and the error is thrown
  again by the outer \<^verbatim>\<open>catch\<close>, or gives a response whose \<^verbatim>\<open>response.text\<close> is a string or
  \<^verbatim>\<open>undefined\<close>. \<open>parsed\<close> is the outcome of \<^verbatim>\<open>JSON.parse(text)\<close>, a built-in: \<open>None\<close>
  when it throws \<^verbatim>\<open>SyntaxError\<close>.
  \<^verbatim>\<open>
  const text = response.text;
  if (!text) return { summary: "No analysis generated." };
  try {
    const json = JSON.parse(text);
    return { summary: json.summary || json.description, code: json.code, text: json.text };
  } catch (e) {
    return { summary: text };
  }
  \<close>
\<close>

definition tryBlock :: "json \<Rightarrow> AnalysisResult option" where
  "tryBlock j =
     (case getProp j ''summary'' of
        None \<Rightarrow> None
      | Some s \<Rightarrow>
          (case (if truthy s then Some s else getProp j ''description'') of
             None \<Rightarrow> None
           | Some sm \<Rightarrow>
               (case getProp j ''code'' of
                  None \<Rightarrow> None
                | Some c \<Rightarrow>
                    (case getProp j ''text'' of
                       None \<Rightarrow> None
                     | Some t \<Rightarrow> Some \<lparr>summary = sm, code_field = c, text_field = t\<rparr>))))"

definition analyzeScreenshot :: "gateway \<Rightarrow> json option \<Rightarrow> error + AnalysisResult" where
  "analyzeScreenshot g parsed =
     (case g of
        Rejected \<Rightarrow> Inl GatewayError
      | Response None \<Rightarrow>
          Inr \<lparr>summary = Some (JStr ''No analysis generated.''), code_field = None, text_field = None\<rparr>
      | Response (Some txt) \<Rightarrow>
          if txt = []
          then Inr \<lparr>summary = Some (JStr ''No analysis generated.''), code_field = None, text_field = None\<rparr>
          else
            (case (case parsed of None \<Rightarrow> None | Some j \<Rightarrow> tryBlock j) of
               Some res \<Rightarrow> Inr res
             | None \<Rightarrow> Inr \<lparr>summary = Some (JStr txt), code_field = None, text_field = None\<rparr>))"

text \<open>
  The sentence of the specification on the summary, as it is written: the field
  \<^verbatim>\<open>summary\<close> of the parsed object, and \<^verbatim>\<open>description\<close> when \<^verbatim>\<open>summary\<close> is absent.
\<close>

definition spec_summary :: "json \<Rightarrow> json option" where
  "spec_summary j =
     (case j of
        JObj ps \<Rightarrow> (case map_of ps ''summary'' of Some v \<Rightarrow> Some v | None \<Rightarrow> map_of ps ''description'')
      | _ \<Rightarrow> None)"


section \<open>Inputs of the scenarios\<close>

text \<open>The frames \<open>A\<close> (200 by 100) and \<open>B\<close> (300 by 150) of the specification's scenario.\<close>

definition frameA :: CapturedFrame where
  "frameA = \<lparr>frame_id = ''4fzyo82mv'', dataUrl = ''data:image/png;base64,A'',
             width = 200, height = 100, timestamp = 1000\<rparr>"

definition frameB :: CapturedFrame where
  "frameB = \<lparr>frame_id = ''k3j9x0qpd'', dataUrl = ''data:image/png;base64,B'',
             width = 300, height = 150, timestamp = 3000\<rparr>"

text \<open>A canvas element as the browser creates it (300 by 150, nothing painted), no composite yet.\<close>

definition view0 :: view where
  "view0 = \<lparr>canvas = \<lparr>canvas_width = 300, canvas_height = 150, painted = []\<rparr>,
            stitchedImage = None\<rparr>"

text \<open>
  Two captures for which \<^verbatim>\<open>Math.random()\<close> returns \<open>0.5\<close>, whose text in base 36 is
  \<^verbatim>\<open>0.i\<close>, two seconds apart.
\<close>

definition env1 :: capture_env where
  "env1 = \<lparr>videoRef = True, context2d = True, random36 = ''0.i'', videoWidth = 200,
           videoHeight = 100, toDataURL = ''data:image/png;base64,A'', now = 1000\<rparr>"

definition env2 :: capture_env where
  "env2 = \<lparr>videoRef = True, context2d = True, random36 = ''0.i'', videoWidth = 300,
           videoHeight = 150, toDataURL = ''data:image/png;base64,B'', now = 3000\<rparr>"


text \<open>
  An answer of the gateway whose \<^verbatim>\<open>summary\<close> is the empty string, and the value that
  \<^verbatim>\<open>JSON.parse\<close> returns for it.
\<close>

definition answer_text :: string where
  \<open>answer_text = ''{"summary":"","description":"A login form"}''\<close>

definition answer_json :: json where
  "answer_json = JObj [(''summary'', JStr ''''), (''description'', JStr ''A login form'')]"


text \<open>An answer with a \<^verbatim>\<open>description\<close> and no \<^verbatim>\<open>summary\<close>, and its parsed value.\<close>

definition described_text :: string where
  \<open>described_text = ''{"description":"A login form"}''\<close>

definition described_json :: json where
  "described_json = JObj [(''description'', JStr ''A login form'')]"


section \<open>The stitch loop in closed form\<close>

lemma Math_max_Max: "xs \<noteq> [] \<Longrightarrow> Math_max xs = Some (Max (set xs))"
  by (cases xs) (simp_all add: Max.set_eq_fold [symmetric])

lemma foldl_height: "foldl (\<lambda>acc f. acc + height f) a fs = a + sum_list (map height fs)"
  by (induction fs arbitrary: a) simp_all

lemma totalHeight_sum: "totalHeight fs = sum_list (map height fs)"
  by (simp add: totalHeight_def foldl_height)

lemma length_stacked: "length (stacked mw fs y) = length fs"
  by (induction fs arbitrary: y) simp_all

lemma stacked_nth:
  "i < length fs \<Longrightarrow>
   stacked mw fs y ! i = DrawImage (fs ! i) (centre mw (fs ! i)) (y + sum_list (map height (take i fs)))"
proof (induction fs arbitrary: i y)
  case Nil
  then show ?case by simp
next
  case (Cons f fs)
  show ?case
  proof (cases i)
    case 0
    then show ?thesis by simp
  next
    case (Suc j)
    with Cons.prems have "j < length fs" by simp
    from Cons.IH [OF this, of "y + height f"] Suc show ?thesis by (simp add: add.assoc)
  qed
qed

lemma fold_chained:
  "awaiting r = fs \<Longrightarrow> fs \<noteq> [] \<Longrightarrow>
   fold fire (replicate (length fs) Chained) (v, r) =
     (let cv = (canvas v)\<lparr>painted := painted (canvas v) @ stacked (maxWidth r) fs (yOffset r)\<rparr>
      in (v\<lparr>canvas := cv, stitchedImage := Some cv\<rparr>,
          r\<lparr>yOffset := yOffset r + sum_list (map height fs), awaiting := []\<rparr>))"
proof (induction fs arbitrary: v r)
  case Nil
  then show ?case by simp
next
  case (Cons f rest)
  show ?case
  proof (cases rest)
    case Nil
    with Cons.prems show ?thesis by (simp add: drawImage_def Let_def)
  next
    case (Cons g more)
    let ?v = "v\<lparr>canvas := drawImage f (centre (maxWidth r) f) (yOffset r) (canvas v)\<rparr>"
    let ?r = "r\<lparr>yOffset := yOffset r + height f, awaiting := rest\<rparr>"
    have step: "fire Chained (v, r) = (?v, ?r)"
      using Cons.prems Cons by simp
    have "awaiting ?r = rest" "rest \<noteq> []" using Cons by simp_all
    from Cons.IH [OF this] step show ?thesis
      by (simp add: drawImage_def Let_def add.assoc)
  qed
qed


lemma stitchEffect_nonempty:
  "fs \<noteq> [] \<Longrightarrow>
   stitchEffect True True fs v =
     (v\<lparr>canvas :=
          \<lparr>canvas_width = Max (set (map width fs)), canvas_height = sum_list (map height fs),
           painted = [FillRect ''#000'' 0 0 (Max (set (map width fs))) (sum_list (map height fs))]\<rparr>\<rparr>,
      Some \<lparr>maxWidth = Max (set (map width fs)), currentY = 0,
            unawaited = zip [0..<length fs] fs, yOffset = 0, awaiting = fs\<rparr>)"
  by (simp add: stitchEffect_def Math_max_Max totalHeight_sum)


section \<open>Placement of the frames\<close>

text \<open>
  When no image of the \<^verbatim>\<open>forEach\<close> loads before the composite is encoded (the schedule
  holds the awaited loads only), the loop of \<^verbatim>\<open>drawImages\<close> paints, after the black
  background, one image per frame in the order of the collection, centred and stacked.
\<close>

lemma awaited_loads_only:
  assumes "fs \<noteq> []"
  shows "render (replicate (length fs) Chained) True True fs v =
     (let cv = \<lparr>canvas_width = Max (set (map width fs)), canvas_height = sum_list (map height fs),
                painted = FillRect ''#000'' 0 0 (Max (set (map width fs))) (sum_list (map height fs))
                            # stacked (Max (set (map width fs))) fs 0\<rparr>
      in v\<lparr>canvas := cv, stitchedImage := Some cv\<rparr>)"
proof -
  let ?r = "\<lparr>maxWidth = Max (set (map width fs)), currentY = 0,
            unawaited = zip [0..<length fs] fs, yOffset = 0, awaiting = fs\<rparr>"
  have "awaiting ?r = fs" by simp
  from fold_chained [OF this assms] show ?thesis
    by (simp add: render_def stitchEffect_nonempty [OF assms] Let_def)
qed

lemma awaited_loads_only_scenario:
  "stitchedImage (render [Chained, Chained] True True [frameA, frameB] view0) =
     Some \<lparr>canvas_width = 300, canvas_height = 250,
           painted = [FillRect ''#000'' 0 0 300 250, DrawImage frameA 50 0, DrawImage frameB 0 100]\<rparr>"
  using awaited_loads_only [of "[frameA, frameB]" view0]
  by (simp add: Let_def centre_def frameA_def frameB_def numeral_2_eq_2)

text \<open>
  Claim C1 on the code. The collection is \<open>A\<close> (200 by 100) then \<open>B\<close> (300 by 150), the
  scenario of the specification; the composite is 300 by 250. When the images of the
  \<^verbatim>\<open>forEach\<close> load first and in the order of the collection, the composite shows the top
  left pixel of \<open>A\<close> at column 50 of row 0, as the claim says. When the awaited image of
  \<open>A\<close> loads first and the images of the \<^verbatim>\<open>forEach\<close> load after it, \<open>B\<close> before \<open>A\<close>, the
  handler of lines 54 to 67 draws \<open>B\<close> at y = 0 over \<open>A\<close>, and the composite shows
  pixel (50, 0) of \<open>B\<close> there: \<open>A\<close> is not at x = 50, y = 0 of the composite.
\<close>

theorem unawaited_image_displaces_frame:
  "map_option (\<lambda>img. (canvas_width img, canvas_height img, pixel_at img 50 0))
     (stitchedImage (render [Unawaited 0, Unawaited 1, Chained, Chained] True True [frameA, frameB] view0))
     = Some (300, 250, FramePixel frameA 0 0) \<and>
   map_option (\<lambda>img. (canvas_width img, canvas_height img, pixel_at img 50 0))
     (stitchedImage (render [Chained, Unawaited 1, Unawaited 0, Chained] True True [frameA, frameB] view0))
     = Some (300, 250, FramePixel frameB 50 0)"
  by (simp add: render_def stitchEffect_def totalHeight_def drawImage_def centre_def pixel_at_def
      frameA_def frameB_def view0_def)


section \<open>Size of the composite\<close>

lemma fire_invariant:
  assumes "fire e (v, r) = (v', r')"
    and "canvas_width (canvas v) = w" and "canvas_height (canvas v) = h"
    and "awaiting r = [] \<longrightarrow> (\<exists>img. stitchedImage v = Some img \<and> canvas_width img = w \<and> canvas_height img = h)"
  shows "canvas_width (canvas v') = w \<and> canvas_height (canvas v') = h \<and>
         (awaiting r' = [] \<longrightarrow> (\<exists>img. stitchedImage v' = Some img \<and> canvas_width img = w \<and> canvas_height img = h)) \<and>
         length (awaiting r') = length (awaiting r) - (if e = Chained then 1 else 0)"
  using assms
  by (cases e) (auto simp: drawImage_def Let_def split: option.splits list.splits if_splits)

lemma fold_fire_composite:
  assumes "canvas_width (canvas v) = w" and "canvas_height (canvas v) = h"
    and "awaiting r = [] \<longrightarrow> (\<exists>img. stitchedImage v = Some img \<and> canvas_width img = w \<and> canvas_height img = h)"
    and "length (awaiting r) \<le> count_list sched Chained"
  shows "\<exists>img. stitchedImage (fst (fold fire sched (v, r))) = Some img \<and> canvas_width img = w \<and> canvas_height img = h"
  using assms
proof (induction sched arbitrary: v r)
  case Nil
  then show ?case by simp
next
  case (Cons e sched)
  obtain v' r' where step: "fire e (v, r) = (v', r')" by (cases "fire e (v, r)")
  from fire_invariant [OF step Cons.prems(1,2,3)]
  have inv: "canvas_width (canvas v') = w" "canvas_height (canvas v') = h"
    "awaiting r' = [] \<longrightarrow> (\<exists>img. stitchedImage v' = Some img \<and> canvas_width img = w \<and> canvas_height img = h)"
    and len: "length (awaiting r') = length (awaiting r) - (if e = Chained then 1 else 0)"
    by simp_all
  from len Cons.prems(4) have "length (awaiting r') \<le> count_list sched Chained"
    by (auto split: if_splits)
  from Cons.IH [OF inv this] step show ?case by simp
qed

text \<open>
  Claim C2. For a non-empty collection, whatever the order of the load events, once
  every frame of the \<^verbatim>\<open>drawImages\<close> loop has loaded there is a composite, its width is the
  greatest frame width and its height is the sum of the frame heights.
\<close>

theorem composite_dimensions:
  "fs \<noteq> [] \<and> length fs \<le> count_list sched Chained \<longrightarrow>
     (\<exists>img. stitchedImage (render sched True True fs v) = Some img \<and>
        canvas_width img = Max (set (map width fs)) \<and>
        canvas_height img = sum_list (map height fs))"
proof
  assume a: "fs \<noteq> [] \<and> length fs \<le> count_list sched Chained"
  then have ne: "fs \<noteq> []" by simp
  show "\<exists>img. stitchedImage (render sched True True fs v) = Some img \<and>
        canvas_width img = Max (set (map width fs)) \<and>
        canvas_height img = sum_list (map height fs)"
    unfolding render_def stitchEffect_nonempty [OF ne]
    using a by (simp add: fold_fire_composite)
qed

theorem composite_dimensions_witness:
  "[frameA, frameB] \<noteq> [] \<and>
   length [frameA, frameB] \<le> count_list [Unawaited 1, Chained, Unawaited 0, Chained] Chained \<and>
   map_option canvas_width
     (stitchedImage (render [Unawaited 1, Chained, Unawaited 0, Chained] True True [frameA, frameB] view0))
     = Some 300 \<and>
   map_option canvas_height
     (stitchedImage (render [Unawaited 1, Chained, Unawaited 0, Chained] True True [frameA, frameB] view0))
     = Some 250"
proof -
  have h: "[frameA, frameB] \<noteq> [] \<and>
      length [frameA, frameB] \<le> count_list [Unawaited 1, Chained, Unawaited 0, Chained] Chained"
    by simp
  have m: "Max (set (map width [frameA, frameB])) = 300" "sum_list (map height [frameA, frameB]) = 250"
    by (simp_all add: frameA_def frameB_def)
  from composite_dimensions [of "[frameA, frameB]" "[Unawaited 1, Chained, Unawaited 0, Chained]" view0] h
  obtain img where
    "stitchedImage (render [Unawaited 1, Chained, Unawaited 0, Chained] True True [frameA, frameB] view0) = Some img"
    "canvas_width img = Max (set (map width [frameA, frameB]))"
    "canvas_height img = sum_list (map height [frameA, frameB])"
    by blast
  with h m show ?thesis by simp
qed


section \<open>The empty collection\<close>

text \<open>
  Claim C7. For the empty collection the effect sets \<^verbatim>\<open>stitchedImage\<close> to \<^verbatim>\<open>null\<close> and returns:
  the composite is absent, the canvas is not touched (nothing is resized or painted),
  no image is created, so no load event can paint or encode anything afterwards.
\<close>

theorem empty_collection_no_composite:
  "stitchEffect hasCanvas hasCtx [] v = (v\<lparr>stitchedImage := None\<rparr>, None) \<and>
   render sched hasCanvas hasCtx [] v = v\<lparr>stitchedImage := None\<rparr> \<and>
   stitchedImage (render sched hasCanvas hasCtx [] v) = None \<and>
   canvas (render sched hasCanvas hasCtx [] v) = canvas v"
  by (simp add: render_def stitchEffect_def)


section \<open>Reordering\<close>

lemma findIndex_absent: "(\<forall>x \<in> set xs. \<not> p x) \<Longrightarrow> findIndex p xs = - 1"
proof -
  assume "\<forall>x \<in> set xs. \<not> p x"
  then have "length (takeWhile (\<lambda>x. \<not> p x) xs) = length xs" by (induction xs) auto
  then show ?thesis by (simp add: findIndex_def Let_def)
qed

lemma findIndex_first:
  assumes "k < length xs" and "p (xs ! k)" and "\<forall>j<k. \<not> p (xs ! j)"
  shows "findIndex p xs = int k"
proof -
  have "takeWhile (\<lambda>x. \<not> p x) xs = take k xs"
    using assms by (intro takeWhile_eq_take_P_nth) auto
  with assms(1) show ?thesis by (simp add: findIndex_def Let_def)
qed

lemma reorder_absent:
  "i \<notin> frame_id ` set prev \<Longrightarrow> handleReorderFrame i dir prev = prev"
proof -
  assume "i \<notin> frame_id ` set prev"
  then have "\<forall>f \<in> set prev. \<not> frame_id f = i" by auto
  then have "findIndex (\<lambda>f. frame_id f = i) prev = - 1" by (rule findIndex_absent)
  then show ?thesis by (simp add: handleReorderFrame_def)
qed

lemma reorder_up:
  assumes "k < length prev" and "frame_id (prev ! k) = i" and "\<forall>j<k. frame_id (prev ! j) \<noteq> i"
  shows "handleReorderFrame i Up prev =
           (if k = 0 then prev else prev[k := prev ! (k - 1), k - 1 := prev ! k])"
proof -
  have "findIndex (\<lambda>f. frame_id f = i) prev = int k"
    using assms by (intro findIndex_first) auto
  with assms(1) show ?thesis
    by (auto simp: handleReorderFrame_def Let_def nat_diff_distrib')
qed

lemma reorder_down:
  assumes "k < length prev" and "frame_id (prev ! k) = i" and "\<forall>j<k. frame_id (prev ! j) \<noteq> i"
  shows "handleReorderFrame i Down prev =
           (if Suc k = length prev then prev else prev[k := prev ! Suc k, Suc k := prev ! k])"
proof -
  have "findIndex (\<lambda>f. frame_id f = i) prev = int k"
    using assms by (intro findIndex_first) auto
  moreover have "nat (int k + 1) = Suc k" by simp
  ultimately show ?thesis using assms(1)
    by (auto simp: handleReorderFrame_def Let_def)
qed

text \<open>
  Claim C5. \<^verbatim>\<open>handleReorderFrame\<close> returns the collection unchanged when no frame has the
  id, when the frame with the id is first and the direction is up, and when it is last
  and the direction is down; otherwise the frame with the id and its neighbour in the
  direction exchange their positions and every other position keeps its frame. The
  frame with the id is the first one that carries it (the only one when ids are distinct).
\<close>

theorem reorder_swaps_with_neighbour:
  "(i \<notin> frame_id ` set prev \<longrightarrow> handleReorderFrame i dir prev = prev) \<and>
   (\<forall>k. k < length prev \<and> frame_id (prev ! k) = i \<and> (\<forall>j<k. frame_id (prev ! j) \<noteq> i) \<longrightarrow>
      (k = 0 \<longrightarrow> handleReorderFrame i Up prev = prev) \<and>
      (Suc k = length prev \<longrightarrow> handleReorderFrame i Down prev = prev) \<and>
      (0 < k \<longrightarrow>
         length (handleReorderFrame i Up prev) = length prev \<and>
         handleReorderFrame i Up prev ! (k - 1) = prev ! k \<and>
         handleReorderFrame i Up prev ! k = prev ! (k - 1) \<and>
         (\<forall>j < length prev. j \<noteq> k \<and> j \<noteq> k - 1 \<longrightarrow> handleReorderFrame i Up prev ! j = prev ! j)) \<and>
      (Suc k < length prev \<longrightarrow>
         length (handleReorderFrame i Down prev) = length prev \<and>
         handleReorderFrame i Down prev ! Suc k = prev ! k \<and>
         handleReorderFrame i Down prev ! k = prev ! Suc k \<and>
         (\<forall>j < length prev. j \<noteq> k \<and> j \<noteq> Suc k \<longrightarrow> handleReorderFrame i Down prev ! j = prev ! j)))"
proof (intro conjI allI impI)
  assume "i \<notin> frame_id ` set prev"
  then show "handleReorderFrame i dir prev = prev" by (rule reorder_absent)
next
  fix k
  assume h: "k < length prev \<and> frame_id (prev ! k) = i \<and> (\<forall>j<k. frame_id (prev ! j) \<noteq> i)"
  then have up: "handleReorderFrame i Up prev =
           (if k = 0 then prev else prev[k := prev ! (k - 1), k - 1 := prev ! k])"
    and down: "handleReorderFrame i Down prev =
           (if Suc k = length prev then prev else prev[k := prev ! Suc k, Suc k := prev ! k])"
    by (simp_all add: reorder_up reorder_down)
  { assume "k = 0" with up show "handleReorderFrame i Up prev = prev" by simp }
  { assume "Suc k = length prev" with down show "handleReorderFrame i Down prev = prev" by simp }
  { assume "0 < k"
    with up h show "length (handleReorderFrame i Up prev) = length prev"
      and "handleReorderFrame i Up prev ! (k - 1) = prev ! k"
      and "handleReorderFrame i Up prev ! k = prev ! (k - 1)"
      by (auto simp: nth_list_update) }
  { fix j assume "0 < k" "j < length prev" "j \<noteq> k \<and> j \<noteq> k - 1"
    with up show "handleReorderFrame i Up prev ! j = prev ! j" by simp }
  { assume "Suc k < length prev"
    with down h show "length (handleReorderFrame i Down prev) = length prev"
      and "handleReorderFrame i Down prev ! Suc k = prev ! k"
      and "handleReorderFrame i Down prev ! k = prev ! Suc k"
      by (auto simp: nth_list_update) }
  { fix j assume "Suc k < length prev" "j < length prev" "j \<noteq> k \<and> j \<noteq> Suc k"
    with down show "handleReorderFrame i Down prev ! j = prev ! j" by simp }
qed

theorem reorder_swaps_with_neighbour_witness:
  "''k3j9x0qpd'' \<notin> frame_id ` set [frameA] \<and>
   handleReorderFrame ''k3j9x0qpd'' Down [frameA] = [frameA] \<and>
   handleReorderFrame ''k3j9x0qpd'' Up [frameA, frameB] ! 0 = frameB \<and>
   handleReorderFrame ''k3j9x0qpd'' Up [frameA, frameB] ! 1 = frameA \<and>
   handleReorderFrame ''k3j9x0qpd'' Down [frameA, frameB] = [frameA, frameB]"
proof -
  have absent: "''k3j9x0qpd'' \<notin> frame_id ` set [frameA]"
    by (simp add: frameA_def)
  have pos: "(1::nat) < length [frameA, frameB] \<and> frame_id ([frameA, frameB] ! 1) = ''k3j9x0qpd'' \<and>
      (\<forall>j<1. frame_id ([frameA, frameB] ! j) \<noteq> ''k3j9x0qpd'')"
    by (simp add: frameA_def frameB_def)
  from reorder_swaps_with_neighbour [of "''k3j9x0qpd''" "[frameA]" Down] absent
  have a: "handleReorderFrame ''k3j9x0qpd'' Down [frameA] = [frameA]" by blast
  from reorder_swaps_with_neighbour [of "''k3j9x0qpd''" "[frameA, frameB]" Up] pos
  have b: "handleReorderFrame ''k3j9x0qpd'' Up [frameA, frameB] ! (1 - 1) = [frameA, frameB] ! 1"
    "handleReorderFrame ''k3j9x0qpd'' Up [frameA, frameB] ! 1 = [frameA, frameB] ! (1 - 1)"
    "handleReorderFrame ''k3j9x0qpd'' Down [frameA, frameB] = [frameA, frameB]"
    by (metis zero_less_one, metis zero_less_one,
        metis One_nat_def Suc_1 length_Cons list.size(3))
  from absent a b show ?thesis by simp
qed


section \<open>Deleting\<close>

lemma delete_absent:
  "i \<notin> frame_id ` set prev \<Longrightarrow> handleDeleteFrame i prev = prev"
  by (auto simp: handleDeleteFrame_def filter_id_conv)

lemma delete_present:
  assumes d: "distinct (map frame_id prev)" and k: "k < length prev" and i: "frame_id (prev ! k) = i"
  shows "handleDeleteFrame i prev = take k prev @ drop (Suc k) prev"
proof -
  have split: "prev = take k prev @ prev ! k # drop (Suc k) prev"
    using k by (rule id_take_nth_drop)
  from d have "distinct (map frame_id (take k prev @ prev ! k # drop (Suc k) prev))"
    using split by simp
  then have "i \<notin> frame_id ` set (take k prev)" "i \<notin> frame_id ` set (drop (Suc k) prev)"
    using i by auto
  then have "filter (\<lambda>f. frame_id f \<noteq> i) (take k prev) = take k prev"
    "filter (\<lambda>f. frame_id f \<noteq> i) (drop (Suc k) prev) = drop (Suc k) prev"
    by (auto simp: filter_id_conv)
  moreover have "handleDeleteFrame i prev =
      filter (\<lambda>f. frame_id f \<noteq> i) (take k prev) @
      filter (\<lambda>f. frame_id f \<noteq> i) [prev ! k] @
      filter (\<lambda>f. frame_id f \<noteq> i) (drop (Suc k) prev)"
    unfolding handleDeleteFrame_def by (subst split) simp
  ultimately show ?thesis using i by simp
qed

lemma height_split:
  assumes "k < length prev"
  shows "sum_list (map height prev) =
         sum_list (map height (take k prev @ drop (Suc k) prev)) + height (prev ! k)"
proof -
  have "sum_list (map height prev) =
        sum_list (map height (take k prev @ prev ! k # drop (Suc k) prev))"
    using id_take_nth_drop [OF assms] by simp
  then show ?thesis by simp
qed
lemma height_partition:
  "sum_list (map height prev) =
     sum_list (map height (filter (\<lambda>f. frame_id f \<noteq> i) prev)) +
     sum_list (map height (filter (\<lambda>f. frame_id f = i) prev))"
  by (induction prev) simp_all

text \<open>
  Claim C6, as the code has it. \<^verbatim>\<open>handleDeleteFrame\<close> returns the collection unchanged when
  no frame has the id. For every collection its result is a subsequence of the
  collection (the frames that stay keep their relative order) and holds exactly the
  frames with another id: every frame with the id is removed, and the height that the
  stitch effect computes drops by the sum of the heights of the removed frames.
  In a collection without duplicate ids, when the frame at position \<open>k\<close> has the id, the
  result is the collection without that one frame, the others in their order; the
  height that the stitch effect computes (and gives to the canvas of the composite)
  is the former height minus the height of the deleted frame.
\<close>

theorem delete_removes_frame:
  "(i \<notin> frame_id ` set prev \<longrightarrow> handleDeleteFrame i prev = prev) \<and>
   subseq (handleDeleteFrame i prev) prev \<and>
   set (handleDeleteFrame i prev) = {f \<in> set prev. frame_id f \<noteq> i} \<and>
   totalHeight prev =
     totalHeight (handleDeleteFrame i prev)
       + sum_list (map height (filter (\<lambda>f. frame_id f = i) prev)) \<and>
   (\<forall>k. distinct (map frame_id prev) \<and> k < length prev \<and> frame_id (prev ! k) = i \<longrightarrow>
      handleDeleteFrame i prev = take k prev @ drop (Suc k) prev \<and>
      totalHeight prev = totalHeight (handleDeleteFrame i prev) + height (prev ! k) \<and>
      (handleDeleteFrame i prev \<noteq> [] \<longrightarrow>
         canvas_height (canvas (fst (stitchEffect True True prev v))) =
         canvas_height (canvas (fst (stitchEffect True True (handleDeleteFrame i prev) v')))
           + height (prev ! k)))"
proof (intro conjI allI impI)
  assume "i \<notin> frame_id ` set prev"
  then show "handleDeleteFrame i prev = prev" by (rule delete_absent)
next
  show "subseq (handleDeleteFrame i prev) prev" by (simp add: handleDeleteFrame_def)
next
  show "set (handleDeleteFrame i prev) = {f \<in> set prev. frame_id f \<noteq> i}"
    by (simp add: handleDeleteFrame_def)
next
  show "totalHeight prev =
     totalHeight (handleDeleteFrame i prev)
       + sum_list (map height (filter (\<lambda>f. frame_id f = i) prev))"
    unfolding totalHeight_sum handleDeleteFrame_def by (rule height_partition)
next
  fix k
  assume h: "distinct (map frame_id prev) \<and> k < length prev \<and> frame_id (prev ! k) = i"
  then have eq: "handleDeleteFrame i prev = take k prev @ drop (Suc k) prev"
    by (simp add: delete_present)
  then show "handleDeleteFrame i prev = take k prev @ drop (Suc k) prev" .
  from h have k: "k < length prev" by simp
  show th: "totalHeight prev = totalHeight (handleDeleteFrame i prev) + height (prev ! k)"
    unfolding eq totalHeight_sum by (rule height_split [OF k])
  assume ne: "handleDeleteFrame i prev \<noteq> []"
  from k have "prev \<noteq> []" by auto
  with ne th show "canvas_height (canvas (fst (stitchEffect True True prev v))) =
         canvas_height (canvas (fst (stitchEffect True True (handleDeleteFrame i prev) v')))
           + height (prev ! k)"
    by (simp add: stitchEffect_nonempty totalHeight_sum)
qed

theorem delete_removes_frame_witness:
  "''zzzzzzzzz'' \<notin> frame_id ` set [frameA, frameB] \<and>
   handleDeleteFrame ''zzzzzzzzz'' [frameA, frameB] = [frameA, frameB] \<and>
   distinct (map frame_id [frameA, frameB]) \<and>
   handleDeleteFrame ''4fzyo82mv'' [frameA, frameB] = [frameB] \<and>
   totalHeight [frameA, frameB] = totalHeight [frameB] + 100 \<and>
   canvas_height (canvas (fst (stitchEffect True True [frameA, frameB] view0))) =
     canvas_height (canvas (fst (stitchEffect True True [frameB] view0))) + 100"
proof -
  have absent: "''zzzzzzzzz'' \<notin> frame_id ` set [frameA, frameB]"
    by (simp add: frameA_def frameB_def)
  have pos: "distinct (map frame_id [frameA, frameB]) \<and> (0::nat) < length [frameA, frameB] \<and>
      frame_id ([frameA, frameB] ! 0) = ''4fzyo82mv''"
    by (simp add: frameA_def frameB_def)
  have hA: "height frameA = 100" by (simp add: frameA_def)
  from delete_removes_frame [of "''zzzzzzzzz''" "[frameA, frameB]" view0 view0] absent
  have a: "handleDeleteFrame ''zzzzzzzzz'' [frameA, frameB] = [frameA, frameB]" by blast
  from delete_removes_frame [of "''4fzyo82mv''" "[frameA, frameB]" view0 view0] pos
  have b: "handleDeleteFrame ''4fzyo82mv'' [frameA, frameB] = take 0 [frameA, frameB] @ drop (Suc 0) [frameA, frameB]"
    and c: "totalHeight [frameA, frameB] =
      totalHeight (handleDeleteFrame ''4fzyo82mv'' [frameA, frameB]) + height ([frameA, frameB] ! 0)"
    and d: "handleDeleteFrame ''4fzyo82mv'' [frameA, frameB] \<noteq> [] \<longrightarrow>
      canvas_height (canvas (fst (stitchEffect True True [frameA, frameB] view0))) =
      canvas_height (canvas (fst (stitchEffect True True (handleDeleteFrame ''4fzyo82mv'' [frameA, frameB]) view0)))
        + height ([frameA, frameB] ! 0)"
    by blast+
  from b have b': "handleDeleteFrame ''4fzyo82mv'' [frameA, frameB] = [frameB]" by simp
  from c b' hA have c': "totalHeight [frameA, frameB] = totalHeight [frameB] + 100" by simp
  from d b' hA have d': "canvas_height (canvas (fst (stitchEffect True True [frameA, frameB] view0))) =
     canvas_height (canvas (fst (stitchEffect True True [frameB] view0))) + 100" by simp
  from absent a pos b' c' d' show ?thesis by blast
qed


text \<open>
  Claim C6, as it is written, fails on a collection that the code can reach. In the mode
  \<^verbatim>\<open>LONG_MANUAL\<close>, two clicks on "Snap Frame" for which \<^verbatim>\<open>Math.random()\<close> returns \<open>0.5\<close> and
  then "Finish Stitching" hand over two frames with the id \<^verbatim>\<open>i\<close>, 100 and 150 high.
  Deleting the id \<^verbatim>\<open>i\<close> removes both: the collection becomes empty and the height drops
  by 250, the height of neither frame.
\<close>

theorem delete_removes_every_frame_with_the_id:
  "map frame_id
     (snd (finishStitching_onClick
            (snapFrame_onClick (snapFrame_onClick (session_start\<lparr>mode := LONG_MANUAL\<rparr>) env1) env2)))
     = [''i'', ''i''] \<and>
   map height
     (snd (finishStitching_onClick
            (snapFrame_onClick (snapFrame_onClick (session_start\<lparr>mode := LONG_MANUAL\<rparr>) env1) env2)))
     = [100, 150] \<and>
   handleDeleteFrame ''i''
     (snd (finishStitching_onClick
            (snapFrame_onClick (snapFrame_onClick (session_start\<lparr>mode := LONG_MANUAL\<rparr>) env1) env2)))
     = [] \<and>
   totalHeight
     (snd (finishStitching_onClick
            (snapFrame_onClick (snapFrame_onClick (session_start\<lparr>mode := LONG_MANUAL\<rparr>) env1) env2)))
     = 250 \<and>
   totalHeight
     (handleDeleteFrame ''i''
       (snd (finishStitching_onClick
              (snapFrame_onClick (snapFrame_onClick (session_start\<lparr>mode := LONG_MANUAL\<rparr>) env1) env2))))
     = 0"
  by (simp add: finishStitching_onClick_def snapFrame_onClick_def handleFinish_def captureFrame_def
      session_start_def env1_def env2_def newFrame_def generateId_def handleDeleteFrame_def
      totalHeight_def)


section \<open>Ids in the collection\<close>

lemma findIndex_range:
  "findIndex p xs = - 1 \<or> (0 \<le> findIndex p xs \<and> findIndex p xs < int (length xs))"
proof -
  have "length (takeWhile (\<lambda>x. \<not> p x) xs) \<le> length xs" by (rule length_takeWhile_le)
  then show ?thesis by (auto simp: findIndex_def Let_def)
qed

lemma reorder_shape:
  "handleReorderFrame i dir prev = prev \<or>
   (\<exists>a b. a < length prev \<and> b < length prev \<and>
      handleReorderFrame i dir prev = prev[a := prev ! b, b := prev ! a])"
proof -
  let ?idx = "findIndex (\<lambda>f. frame_id f = i) prev"
  let ?swp = "if dir = Up then ?idx - 1 else ?idx + 1"
  show ?thesis
  proof (cases "?idx \<noteq> - 1 \<and> 0 \<le> ?swp \<and> ?swp < int (length prev)")
    case False
    then show ?thesis by (auto simp: handleReorderFrame_def Let_def)
  next
    case True
    with findIndex_range [of "\<lambda>f. frame_id f = i" prev]
    have "nat ?idx < length prev" "nat ?swp < length prev" by auto
    moreover from True have "handleReorderFrame i dir prev =
        prev[nat ?idx := prev ! nat ?swp, nat ?swp := prev ! nat ?idx]"
      by (simp add: handleReorderFrame_def Let_def)
    ultimately show ?thesis by blast
  qed
qed

lemma reorder_distinct:
  assumes "distinct (map frame_id prev)"
  shows "distinct (map frame_id (handleReorderFrame i dir prev))"
proof -
  from reorder_shape [of i dir prev] show ?thesis
  proof
    assume "handleReorderFrame i dir prev = prev"
    with assms show ?thesis by simp
  next
    assume "\<exists>a b. a < length prev \<and> b < length prev \<and>
      handleReorderFrame i dir prev = prev[a := prev ! b, b := prev ! a]"
    then obtain a b where ab: "a < length prev" "b < length prev"
      and eq: "handleReorderFrame i dir prev = prev[a := prev ! b, b := prev ! a]" by blast
    have "map frame_id (prev[a := prev ! b, b := prev ! a]) =
          (map frame_id prev)[a := map frame_id prev ! b, b := map frame_id prev ! a]"
      using ab by (simp add: map_update)
    moreover have "distinct ((map frame_id prev)[a := map frame_id prev ! b, b := map frame_id prev ! a])"
      using distinct_swap [of a "map frame_id prev" b] ab assms by simp
    ultimately show ?thesis using eq by simp
  qed
qed

lemma delete_distinct:
  "distinct (map frame_id prev) \<Longrightarrow> distinct (map frame_id (handleDeleteFrame i prev))"
  by (simp add: handleDeleteFrame_def distinct_map_filter)
text \<open>
  Claim C8, as the code has it. Deleting and reordering keep the ids of a collection
  distinct. A capture appends a frame whose id is nine characters of the text of a
  random number, chosen without looking at the collection: after a capture the ids
  are distinct exactly when the new id is not already in the collection. When the
  video, the stream or the drawing context is missing, the capture changes nothing.
\<close>

theorem ids_stay_distinct:
  "distinct (map frame_id fs) \<longrightarrow>
     distinct (map frame_id (handleDeleteFrame i fs)) \<and>
     distinct (map frame_id (handleReorderFrame i dir fs)) \<and>
     (videoRef env \<and> stream cl \<and> context2d env \<and> frames cur = fs \<longrightarrow>
        frames (captureFrame cl env cur) = fs @ [newFrame env] \<and>
        frame_id (newFrame env) = take 9 (drop 2 (random36 env)) \<and>
        (distinct (map frame_id (frames (captureFrame cl env cur))) \<longleftrightarrow>
           take 9 (drop 2 (random36 env)) \<notin> frame_id ` set fs)) \<and>
     (\<not> (videoRef env \<and> stream cl \<and> context2d env) \<longrightarrow> captureFrame cl env cur = cur)"
proof
  assume d: "distinct (map frame_id fs)"
  have "distinct (map frame_id (handleDeleteFrame i fs))" using d by (rule delete_distinct)
  moreover have "distinct (map frame_id (handleReorderFrame i dir fs))" using d by (rule reorder_distinct)
  moreover have "videoRef env \<and> stream cl \<and> context2d env \<and> frames cur = fs \<longrightarrow>
        frames (captureFrame cl env cur) = fs @ [newFrame env] \<and>
        frame_id (newFrame env) = take 9 (drop 2 (random36 env)) \<and>
        (distinct (map frame_id (frames (captureFrame cl env cur))) \<longleftrightarrow>
           take 9 (drop 2 (random36 env)) \<notin> frame_id ` set fs)"
    using d by (auto simp: captureFrame_def newFrame_def generateId_def)
  moreover have "\<not> (videoRef env \<and> stream cl \<and> context2d env) \<longrightarrow> captureFrame cl env cur = cur"
    by (auto simp: captureFrame_def)
  ultimately show "distinct (map frame_id (handleDeleteFrame i fs)) \<and>
     distinct (map frame_id (handleReorderFrame i dir fs)) \<and>
     (videoRef env \<and> stream cl \<and> context2d env \<and> frames cur = fs \<longrightarrow>
        frames (captureFrame cl env cur) = fs @ [newFrame env] \<and>
        frame_id (newFrame env) = take 9 (drop 2 (random36 env)) \<and>
        (distinct (map frame_id (frames (captureFrame cl env cur))) \<longleftrightarrow>
           take 9 (drop 2 (random36 env)) \<notin> frame_id ` set fs)) \<and>
     (\<not> (videoRef env \<and> stream cl \<and> context2d env) \<longrightarrow> captureFrame cl env cur = cur)"
    by blast
qed

theorem ids_stay_distinct_witness:
  "distinct (map frame_id [frameA, frameB]) \<and>
   distinct (map frame_id (handleDeleteFrame ''4fzyo82mv'' [frameA, frameB])) \<and>
   distinct (map frame_id (handleReorderFrame ''4fzyo82mv'' Down [frameA, frameB])) \<and>
   videoRef env1 \<and> stream session_start \<and> context2d env1 \<and>
   distinct (map frame_id (frames (captureFrame session_start env1 (session_start\<lparr>frames := [frameA, frameB]\<rparr>))))"
proof -
  have d: "distinct (map frame_id [frameA, frameB])"
    by (simp add: frameA_def frameB_def)
  have e: "videoRef env1 \<and> stream session_start \<and> context2d env1 \<and>
      frames (session_start\<lparr>frames := [frameA, frameB]\<rparr>) = [frameA, frameB]"
    by (simp add: env1_def session_start_def)
  have fresh: "take 9 (drop 2 (random36 env1)) \<notin> frame_id ` set [frameA, frameB]"
    by (simp add: env1_def frameA_def frameB_def)
  from ids_stay_distinct [of "[frameA, frameB]" "''4fzyo82mv''" Down env1 session_start
      "session_start\<lparr>frames := [frameA, frameB]\<rparr>"] d e fresh
  have "distinct (map frame_id (handleDeleteFrame ''4fzyo82mv'' [frameA, frameB]))"
    and "distinct (map frame_id (handleReorderFrame ''4fzyo82mv'' Down [frameA, frameB]))"
    and "distinct (map frame_id (frames (captureFrame session_start env1 (session_start\<lparr>frames := [frameA, frameB]\<rparr>))))"
    by blast+
  with d e show ?thesis by blast
qed

text \<open>
  Claim C8, as it is written, fails. In the mode \<^verbatim>\<open>LONG_MANUAL\<close>, two clicks on "Snap Frame"
  for which \<^verbatim>\<open>Math.random()\<close> returns the same number, then "Finish Stitching": both
  frames of the collection handed to the editor have the id \<^verbatim>\<open>i\<close>.
\<close>

theorem duplicate_ids_reachable:
  "\<not> distinct (map frame_id
        (snd (finishStitching_onClick
               (snapFrame_onClick (snapFrame_onClick (session_start\<lparr>mode := LONG_MANUAL\<rparr>) env1) env2))))"
  by (simp add: finishStitching_onClick_def snapFrame_onClick_def handleFinish_def captureFrame_def
      session_start_def env1_def env2_def newFrame_def generateId_def)


section \<open>Reading the answer of the gateway\<close>

lemma tryBlock_object:
  "tryBlock (JObj ps) =
     Some \<lparr>summary = (if truthy (map_of ps ''summary'') then map_of ps ''summary''
                      else map_of ps ''description''),
           code_field = map_of ps ''code'', text_field = map_of ps ''text''\<rparr>"
  by (simp add: tryBlock_def)

lemma tryBlock_null: "tryBlock JNull = None"
  by (simp add: tryBlock_def)

lemma tryBlock_other:
  "j \<noteq> JNull \<Longrightarrow> (\<forall>ps. j \<noteq> JObj ps) \<Longrightarrow>
   tryBlock j = Some \<lparr>summary = None, code_field = None, text_field = None\<rparr>"
  by (cases j) (simp_all add: tryBlock_def)
text \<open>
  Claim C9, as the code has it. For a response with a non-empty text: when the text is
  not JSON, or parses to \<^verbatim>\<open>null\<close> (reading a field of \<^verbatim>\<open>null\<close> throws inside the same
  \<^verbatim>\<open>try\<close>), the result is the raw text as summary, not an error; when it parses to an
  object, the summary is the field \<^verbatim>\<open>summary\<close> if that is truthy and the field
  \<^verbatim>\<open>description\<close> otherwise, which is what the specification says whenever \<^verbatim>\<open>summary\<close>
  is absent or truthy; when it parses to any other value, no field is set.
\<close>

theorem analyze_summary:
  "txt \<noteq> [] \<longrightarrow>
     (parsed = None \<or> parsed = Some JNull \<longrightarrow>
        analyzeScreenshot (Response (Some txt)) parsed =
          Inr \<lparr>summary = Some (JStr txt), code_field = None, text_field = None\<rparr>) \<and>
     (\<forall>ps. parsed = Some (JObj ps) \<longrightarrow>
        (\<exists>res. analyzeScreenshot (Response (Some txt)) parsed = Inr res \<and>
           summary res = (if truthy (map_of ps ''summary'') then map_of ps ''summary''
                          else map_of ps ''description'') \<and>
           (map_of ps ''summary'' = None \<or> truthy (map_of ps ''summary'') \<longrightarrow>
              summary res = spec_summary (JObj ps)))) \<and>
     (\<forall>j. parsed = Some j \<and> j \<noteq> JNull \<and> (\<forall>ps. j \<noteq> JObj ps) \<longrightarrow>
        analyzeScreenshot (Response (Some txt)) parsed =
          Inr \<lparr>summary = None, code_field = None, text_field = None\<rparr>)"
  by (auto simp: analyzeScreenshot_def tryBlock_object tryBlock_null tryBlock_other spec_summary_def
      split: option.splits)
theorem analyze_summary_witness:
  "''hello'' \<noteq> [] \<and>
   analyzeScreenshot (Response (Some ''hello'')) None =
     Inr \<lparr>summary = Some (JStr ''hello''), code_field = None, text_field = None\<rparr> \<and>
   described_text \<noteq> [] \<and>
   map_sum id summary (analyzeScreenshot (Response (Some described_text)) (Some described_json))
     = Inr (Some (JStr ''A login form''))"
proof -
  have ne: "''hello'' \<noteq> []" by simp
  from analyze_summary [of "''hello''" None] ne
  have a: "analyzeScreenshot (Response (Some ''hello'')) None =
     Inr \<lparr>summary = Some (JStr ''hello''), code_field = None, text_field = None\<rparr>" by blast
  have ne2: "described_text \<noteq> []" by (simp add: described_text_def)
  have p: "Some described_json = Some (JObj [(''description'', JStr ''A login form'')])"
    by (simp add: described_json_def)
  from analyze_summary [of described_text "Some described_json"] ne2 p
  obtain res where "analyzeScreenshot (Response (Some described_text)) (Some described_json) = Inr res"
    "summary res = (if truthy (map_of [(''description'', JStr ''A login form'')] ''summary'')
       then map_of [(''description'', JStr ''A login form'')] ''summary''
       else map_of [(''description'', JStr ''A login form'')] ''description'')"
    by blast
  then have b: "map_sum id summary (analyzeScreenshot (Response (Some described_text)) (Some described_json))
     = Inr (Some (JStr ''A login form''))"
    by simp
  from ne a ne2 b show ?thesis by blast
qed

text \<open>
  Claim C9, as it is written, fails: for the answer
  \<^verbatim>\<open>{"summary":"","description":"A login form"}\<close> the field \<^verbatim>\<open>summary\<close> is present, and the
  result takes its summary from \<^verbatim>\<open>description\<close>.
\<close>

theorem summary_falls_back_on_empty_string:
  "analyzeScreenshot (Response (Some answer_text)) (Some answer_json) =
     Inr \<lparr>summary = Some (JStr ''A login form''), code_field = None, text_field = None\<rparr> \<and>
   spec_summary answer_json = Some (JStr '''') \<and>
   Some (JStr ''A login form'') \<noteq> spec_summary answer_json"
  by (simp add: analyzeScreenshot_def tryBlock_def answer_text_def answer_json_def spec_summary_def)
text \<open>Two more answers on which the sentence and the code differ.\<close>

lemma null_answer_is_raw_text:
  "analyzeScreenshot (Response (Some ''null'')) (Some JNull) =
     Inr \<lparr>summary = Some (JStr ''null''), code_field = None, text_field = None\<rparr>"
  by (simp add: analyzeScreenshot_def tryBlock_def)
lemma empty_text_is_not_raw_text:
  "analyzeScreenshot (Response (Some '''')) None \<noteq>
     Inr \<lparr>summary = Some (JStr ''''), code_field = None, text_field = None\<rparr>"
  by (simp add: analyzeScreenshot_def)

text \<open>
  Claim C10. When \<^verbatim>\<open>response.text\<close> is \<^verbatim>\<open>undefined\<close> or the empty string, the result is
  the summary "No analysis generated." and nothing else, whatever \<^verbatim>\<open>JSON.parse\<close> would do.
\<close>

theorem no_text_no_analysis:
  "analyzeScreenshot (Response None) parsed =
     Inr \<lparr>summary = Some (JStr ''No analysis generated.''), code_field = None, text_field = None\<rparr> \<and>
   analyzeScreenshot (Response (Some '''')) parsed =
     Inr \<lparr>summary = Some (JStr ''No analysis generated.''), code_field = None, text_field = None\<rparr>"
  by (simp add: analyzeScreenshot_def)


section \<open>The order of the load events\<close>

text \<open>
  Claim C3 on the code. The collection is \<open>B\<close> (300 by 150) then \<open>A\<close> (200 by 100). When the
  images of the \<^verbatim>\<open>forEach\<close> load in the order of the collection, the composite is black at
  column 0 of row 150, beside \<open>A\<close>. When the image of \<open>A\<close> loads before the image of \<open>B\<close>,
  the handler of \<open>B\<close> draws it at y = 100, and the composite shows row 50 of \<open>B\<close> there:
  the \<^verbatim>\<open>drawImages\<close> loop paints \<open>A\<close> over the middle of that row only. The same collection
  gives two different composites.
\<close>

theorem render_depends_on_load_order:
  "map_option (\<lambda>img. pixel_at img 0 150)
     (stitchedImage (render [Unawaited 0, Unawaited 1, Chained, Chained] True True [frameB, frameA] view0))
     = Some (Fill ''#000'') \<and>
   map_option (\<lambda>img. pixel_at img 0 150)
     (stitchedImage (render [Unawaited 1, Unawaited 0, Chained, Chained] True True [frameB, frameA] view0))
     = Some (FramePixel frameB 0 50)"
  by (simp add: render_def stitchEffect_def totalHeight_def drawImage_def centre_def pixel_at_def
      frameA_def frameB_def view0_def)

text \<open>
  Without the images of the \<^verbatim>\<open>forEach\<close> the composite is a function of the collection:
  this is \<open>awaited_loads_only\<close>.
\<close>


section \<open>The mode SINGLE\<close>

text \<open>
  \<^verbatim>\<open>handleFinish\<close> hands over the \<^verbatim>\<open>frames\<close> of the render on which the button was clicked,
  whatever \<^verbatim>\<open>captureFrame\<close> appended since.
\<close>

lemma captureAndEdit_hands_off_closure:
  "snd (captureAndEdit_onClick s env) = frames s"
  by (simp add: captureAndEdit_onClick_def handleFinish_def)

text \<open>
  Claim C4 on the code. On a fresh session, one click on "Capture & Edit" appends one
  frame to the state of the component and hands the empty collection to the caller:
  the timer callback calls the \<^verbatim>\<open>handleFinish\<close> of the render on which the button was
  clicked, whose \<^verbatim>\<open>frames\<close> is still empty. The sibling path of \<^verbatim>\<open>LONG_MANUAL\<close> (one click
  on "Snap Frame", then "Finish Stitching" on the next render) hands over the frame.
\<close>

theorem single_capture_hands_off_stale_frames:
  "snd (captureAndEdit_onClick session_start env1) = [] \<and>
   frames (fst (captureAndEdit_onClick session_start env1)) = [newFrame env1] \<and>
   snd (finishStitching_onClick (snapFrame_onClick (session_start\<lparr>mode := LONG_MANUAL\<rparr>) env1))
     = [newFrame env1]"
  by (simp add: captureAndEdit_onClick_def handleFinish_def captureFrame_def stopStream_def
      session_start_def env1_def finishStitching_onClick_def snapFrame_onClick_def)

end
